theory Spec2Isabelle
  imports Complex_Main "HOL-Library.Word" "HOL-Library.Log_Nat"
begin

section \<open>ThermoMoDuino: the chiller thermostat of ThermoMoDuino.ino\<close>

text \<open>
  The sketch keeps all of its data in global variables and runs one endless duty loop.
  The model below is a shallow embedding: the globals are one record, every function of
  the sketch is a function from the record to the updated record, and one pass of the
  duty loop is the function \<open>loop_body\<close>, fed with what the hardware delivers on that
  pass (the value of \<open>millis()\<close> and the two thermistor readings).

  Conventions.
  \<^item> \<open>unsigned long\<close> is 32 bits wide on the Arduino Nano: \<open>32 word\<close>, so that
    \<open>+\<close> and \<open>-\<close> wrap and \<open><\<close> compares unsigned.
  \<^item> In the duty loop the \<open>float\<close> temperatures are modelled as \<open>real\<close>. The
    smoothing filter on its own, where rounding decides whether the filtered value moves,
    is also modelled in binary32 arithmetic (\<open>read_temp_f32\<close>). Infinities and NaN
    are outside both models.
  \<^item> The Steinhart-Hart conversion at the head of \<open>read_temp\<close> (a \<open>log\<close> of the
    ADC reading) is not modelled; \<open>read_temp\<close> takes the two converted temperatures
    and models the smoothing that follows.
  \<^item> The relays are active low: \<open>HIGH\<close> is off, \<open>LOW\<close> is on.
  \<^item> \<open>errmesg\<close> never returns. The model records this in the field \<open>mode\<close>: once it is
    \<open>Alarm err\<close> the rest of the pass is skipped and every later step is one turn of
    the alarm loop.
  \<^item> Serial logging and the buzzer have no effect on the control data and are left out.
\<close>

subsection \<open>Data\<close>

datatype level = LOW | HIGH

datatype shown =
    Blank
  | SEG_INIT | SEG_ERR | SEG_IDLE | SEG_COOL | SEG_HOLD | SEG_FAN
  | NumberDec int
  | NumberDegC int

datatype run_mode = Running | Alarm int

type_synonym ulong = "32 word"

definition SolenoidPin :: nat where "SolenoidPin = 7"
definition CompressorPin :: nat where "CompressorPin = 8"
definition FanPin :: nat where "FanPin = 10"
definition PumpPin :: nat where "PumpPin = 9"

definition CASE_TEMP_MARGIN :: real where "CASE_TEMP_MARGIN = 2.0"
definition CASE_TEMP_ROOF :: real where "CASE_TEMP_ROOF = 30"

definition HOLD_TIME :: ulong where "HOLD_TIME = 600"
definition COOLDOWN_TIME :: ulong where "COOLDOWN_TIME = 60"
definition SECOND :: ulong where "SECOND = 1000"

definition T_MAX :: real where "T_MAX = 50.0"
definition T_MIN :: real where "T_MIN = 3.0"
definition T2_MAX :: real where "T2_MAX = 55.0"
definition T2_MIN :: real where "T2_MIN = 3.0"

record ctrl =
  hysteresis :: real
  targetTemp :: real
  targetCaseTemp :: real
  T :: real
  T2 :: real
  Tlast :: real
  T2last :: real
  thisTick :: ulong
  lastTick :: ulong
  nextSecondTick :: ulong
  seconds :: ulong
  tick :: bool
  state :: int
  state_last :: int
  state_new :: int
  st2_timer :: ulong
  st3_start :: ulong
  st4_timer :: ulong
  st5_timer :: ulong
  pins :: "nat \<Rightarrow> level"
  wlog :: "(nat \<times> level) list"
  display :: shown
  mode :: run_mode

text \<open>What one pass of the duty loop reads from the hardware.\<close>

record reading =
  millis :: ulong
  temp1 :: real
  temp2 :: real

text \<open>The globals as the C initialisers leave them, before the sketch's setup function runs.\<close>

definition power_on :: ctrl where
  "power_on = \<lparr> hysteresis = 0.8, targetTemp = 16.0, targetCaseTemp = 22.0,
     T = 0, T2 = 0, Tlast = 0, T2last = 0,
     thisTick = 0, lastTick = 0, nextSecondTick = 0, seconds = 0, tick = False,
     state = 0, state_last = 0, state_new = 0,
     st2_timer = 0, st3_start = 0, st4_timer = 0, st5_timer = 0,
     pins = (\<lambda>_. LOW), wlog = [], display = Blank, mode = Running \<rparr>"

subsection \<open>Pins and relays\<close>

text \<open>\<open>digitalWrite\<close> sets the level of a pin; \<open>wlog\<close> keeps every write in order.\<close>

definition digitalWrite :: "nat \<Rightarrow> level \<Rightarrow> ctrl \<Rightarrow> ctrl" where
  "digitalWrite p v s = s\<lparr> pins := (pins s)(p := v), wlog := wlog s @ [(p, v)] \<rparr>"

definition arduino_setup :: "ctrl \<Rightarrow> ctrl" where
  "arduino_setup s =
     digitalWrite PumpPin HIGH
       (digitalWrite FanPin HIGH
         (digitalWrite SolenoidPin HIGH
           (digitalWrite CompressorPin HIGH s)))"

definition compressor :: "int \<Rightarrow> ctrl \<Rightarrow> ctrl" where
  "compressor st s =
     (if st \<noteq> 0 then digitalWrite CompressorPin LOW s
      else digitalWrite CompressorPin HIGH s)"

definition solenoid :: "int \<Rightarrow> ctrl \<Rightarrow> ctrl" where
  "solenoid st s =
     (if st \<noteq> 0 then digitalWrite SolenoidPin LOW s
      else digitalWrite SolenoidPin HIGH s)"

definition fan :: "int \<Rightarrow> ctrl \<Rightarrow> ctrl" where
  "fan st s =
     (if st \<noteq> 0 then digitalWrite FanPin LOW s
      else digitalWrite FanPin HIGH s)"

subsection \<open>Temperature smoothing\<close>

text \<open>
  \<open>read_temp a b\<close>: \<open>a\<close> and \<open>b\<close> are the freshly converted temperatures of the two
  thermistors. A last value of exactly 0 means "no sample yet".
\<close>

definition read_temp :: "real \<Rightarrow> real \<Rightarrow> ctrl \<Rightarrow> ctrl" where
  "read_temp a b s =
     (let t = (if Tlast s \<noteq> 0 then ((Tlast s * 199.0) + a) / 200.0 else a);
          s = s\<lparr> T := t, Tlast := t \<rparr>;
          t2 = (if T2last s \<noteq> 0 then ((T2last s * 99.0) + b) / 100.0 else b)
      in s\<lparr> T2 := t2, T2last := t2 \<rparr>)"

subsection \<open>Temperature smoothing in binary32\<close>

text \<open>
  On the Arduino Nano \<open>float\<close> and \<open>double\<close> are both IEEE 754 binary32, and each
  of the three operations of \<open>((Tlast*199.0)+T)/200.0\<close> rounds its result.
  \<open>rne\<close> rounds to the nearest integer, ties to the even one. \<open>f32_round\<close> rounds a
  real to the nearest binary32 value: with \<open>m\<close> the magnitude in units of 2^-149
  (the spacing of the subnormals), the spacing at \<open>m\<close> is 2^s where \<open>s\<close> is the
  number of bits of \<open>m\<close> beyond 24. Magnitudes of 2^128 and above (which binary32
  rounds to infinity) are outside the model.
\<close>

definition rne :: "real \<Rightarrow> int" where
  "rne x =
     (let f = \<lfloor>x\<rfloor>; d = x - of_int f
      in if d < 1 / 2 then f
         else if 1 / 2 < d then f + 1
         else if even f then f else f + 1)"

definition f32_round :: "real \<Rightarrow> real" where
  "f32_round x =
     (let m = \<bar>x\<bar> * 2 ^ 149;
          s = nat (bitlen \<lfloor>m\<rfloor> - 24)
      in sgn x * (of_int (rne (m / 2 ^ s)) * 2 ^ s / 2 ^ 149))"

text \<open>
  \<open>read_temp\<close> as above, with every operation rounded. \<open>a\<close> and \<open>b\<close> are the
  binary32 values that the conversion delivers.
\<close>

definition read_temp_f32 :: "real \<Rightarrow> real \<Rightarrow> ctrl \<Rightarrow> ctrl" where
  "read_temp_f32 a b s =
     (let t = (if Tlast s \<noteq> 0
               then f32_round (f32_round (f32_round (Tlast s * 199.0) + a) / 200.0) else a);
          s = s\<lparr> T := t, Tlast := t \<rparr>;
          t2 = (if T2last s \<noteq> 0
                then f32_round (f32_round (f32_round (T2last s * 99.0) + b) / 100.0) else b)
      in s\<lparr> T2 := t2, T2last := t2 \<rparr>)"

subsection \<open>The five states\<close>

text \<open>Each handler returns the C return value (always 0) and the updated globals.\<close>

definition do_state_1 :: "ctrl \<Rightarrow> int \<times> ctrl" where
  "do_state_1 s0 =
     (let s = solenoid 0 (compressor 0 (fan 0 s0));
          s = (if T2 s > targetCaseTemp s then s\<lparr> state_new := 5 \<rparr> else s);
          s = (if T s > targetTemp s + hysteresis s then s\<lparr> state_new := 2 \<rparr> else s)
      in (0, s))"

definition do_state_2 :: "ctrl \<Rightarrow> int \<times> ctrl" where
  "do_state_2 s0 =
     (let s = solenoid 1 (compressor 1 (fan 0 s0));
          s = (if state_last s \<noteq> 2 then s\<lparr> st2_timer := seconds s + 3 \<rparr> else s);
          s = (if seconds s = st2_timer s then s\<lparr> state_new := 3 \<rparr> else s)
      in (0, s))"

definition do_state_3 :: "ctrl \<Rightarrow> int \<times> ctrl" where
  "do_state_3 s0 =
     (let s = solenoid 0 (compressor 1 (fan 1 s0));
          s = (if state_last s \<noteq> 3 then s\<lparr> st3_start := seconds s \<rparr> else s);
          s = (if T s \<le> targetTemp s \<and> seconds s - st3_start s > 5
               then s\<lparr> state_new := 4 \<rparr> else s)
      in (0, s))"

definition do_state_4 :: "ctrl \<Rightarrow> int \<times> ctrl" where
  "do_state_4 s0 =
     (let s = solenoid 1 (compressor 1 (fan 1 s0));
          s = (if state_last s \<noteq> 4 then s\<lparr> st4_timer := seconds s + HOLD_TIME \<rparr> else s);
          s = (if seconds s = st4_timer s then s\<lparr> state_new := 5 \<rparr> else s);
          s = (if T s > targetTemp s + 0.2 \<and> st4_timer s - seconds s < HOLD_TIME - 5
               then s\<lparr> state_new := 3 \<rparr> else s);
          s = (if T s < targetTemp s - hysteresis s then s\<lparr> state_new := 5 \<rparr> else s)
      in (0, s))"

text \<open>The block under \<open>#ifdef INTELLI_CASE\<close> in \<open>do_state_5\<close>.\<close>

definition intelli_case :: "ctrl \<Rightarrow> ctrl" where
  "intelli_case s0 =
     (let s = s0\<lparr> targetCaseTemp :=
                  ((targetCaseTemp s0 * 3.0) + T2 s0 + CASE_TEMP_MARGIN) / 4.0 \<rparr>
      in if targetCaseTemp s > CASE_TEMP_ROOF
         then s\<lparr> targetCaseTemp := CASE_TEMP_ROOF \<rparr> else s)"

definition do_state_5 :: "ctrl \<Rightarrow> int \<times> ctrl" where
  "do_state_5 s0 =
     (let s = solenoid 0 (compressor 0 (fan 1 s0));
          s = (if state_last s \<noteq> 5 then s\<lparr> st5_timer := seconds s + COOLDOWN_TIME \<rparr> else s);
          s = (if seconds s = st5_timer s
               then intelli_case (s\<lparr> state_new := 1 \<rparr>) else s);
          s = (if T s > targetTemp s + hysteresis s then s\<lparr> state_new := 2 \<rparr> else s)
      in (0, s))"

subsection \<open>The alarm\<close>

text \<open>
  \<open>errmesg\<close> switches the three relays off and then loops for ever; \<open>alarm_cycle\<close> is
  one turn of that loop, which touches the display only.
\<close>

definition errmesg :: "int \<Rightarrow> ctrl \<Rightarrow> ctrl" where
  "errmesg err s = (solenoid 0 (compressor 0 (fan 0 s)))\<lparr> mode := Alarm err \<rparr>"

definition alarm_cycle :: "int \<Rightarrow> ctrl \<Rightarrow> ctrl" where
  "alarm_cycle err s = (s\<lparr> display := SEG_ERR \<rparr>)\<lparr> display := NumberDec err \<rparr>"

subsection \<open>The duty loop\<close>

text \<open>The second counter at the head of the duty loop.\<close>

definition second_counter :: "ulong \<Rightarrow> ctrl \<Rightarrow> ctrl" where
  "second_counter now s0 =
     (let s = s0\<lparr> thisTick := now \<rparr>
      in if \<not> (nextSecondTick s < 1001 \<and> thisTick s > 1001)
         then (if thisTick s > nextSecondTick s
               then s\<lparr> seconds := seconds s + 1,
                       nextSecondTick := nextSecondTick s + SECOND,
                       tick := True \<rparr>
               else s\<lparr> tick := False \<rparr>)
         else s\<lparr> tick := False \<rparr>)"

text \<open>A handler that returns non-zero raises error 11; an unknown state raises 99.\<close>

definition checked :: "int \<times> ctrl \<Rightarrow> ctrl" where
  "checked r = (if fst r \<noteq> 0 then errmesg 11 (snd r) else snd r)"

definition state_machine :: "ctrl \<Rightarrow> ctrl" where
  "state_machine s =
     (if state s = 1 then checked (do_state_1 s)
      else if state s = 2 then checked (do_state_2 s)
      else if state s = 3 then checked (do_state_3 s)
      else if state s = 4 then checked (do_state_4 s)
      else if state s = 5 then checked (do_state_5 s)
      else errmesg 99 s)"

definition change_state :: "ctrl \<Rightarrow> ctrl" where
  "change_state s0 =
     (let s = s0\<lparr> state_last := state s0 \<rparr>
      in if state_new s \<noteq> 0 then s\<lparr> state := state_new s \<rparr> else s)"

definition safeguards :: "ctrl \<Rightarrow> ctrl" where
  "safeguards s =
     (if T s < T_MIN \<or> T s > T_MAX then errmesg 1 s
      else if T2 s < T2_MIN \<or> T2 s > T2_MAX then errmesg 2 s
      else s)"

text \<open>The C cast \<open>(int)x\<close> of a float: truncation towards zero.\<close>

definition float_to_int :: "real \<Rightarrow> int" where
  "float_to_int x = (if 0 \<le> x then \<lfloor>x\<rfloor> else \<lceil>x\<rceil>)"

definition show_state :: "ctrl \<Rightarrow> ctrl" where
  "show_state s =
     (if seconds s mod 5 \<noteq> 0
      then (if state s = 1 then s\<lparr> display := SEG_IDLE \<rparr>
            else if state s = 3 then s\<lparr> display := SEG_COOL \<rparr>
            else if state s = 4 then s\<lparr> display := SEG_HOLD \<rparr>
            else if state s = 5 then s\<lparr> display := SEG_FAN \<rparr>
            else s)
      else s\<lparr> display := NumberDegC (float_to_int (T s + 0.5)) \<rparr>)"

definition on_tick :: "ctrl \<Rightarrow> ctrl" where
  "on_tick s0 =
     (if tick s0
      then (let s = show_state s0
            in if state s = 1 \<and> seconds s mod 10 = 0 then s\<lparr> seconds := 0 \<rparr> else s)
      else s0)"

text \<open>One pass of \<open>while (true)\<close> in \<open>loop\<close>.\<close>

definition loop_body :: "reading \<Rightarrow> ctrl \<Rightarrow> ctrl" where
  "loop_body inp s0 =
     (let s = second_counter (millis inp) s0;
          s = read_temp (temp1 inp) (temp2 inp) s;
          s = state_machine (s\<lparr> state_new := 0 \<rparr>)
      in if mode s \<noteq> Running then s
         else (let s = safeguards (change_state s)
               in if mode s \<noteq> Running then s else on_tick s))"

text \<open>
  The head of \<open>loop\<close>, before the duty loop: 200 readings to settle the filters, the
  first bounds check, one click of the solenoid and fan relays, and the start of the
  second counter from two calls of \<open>millis()\<close>.
\<close>

definition click_relays :: "ctrl \<Rightarrow> ctrl" where
  "click_relays s = fan 0 (fan 1 (solenoid 0 (solenoid 1 s)))"

definition loop_init :: "(nat \<Rightarrow> real \<times> real) \<Rightarrow> ulong \<Rightarrow> ulong \<Rightarrow> ctrl \<Rightarrow> ctrl" where
  "loop_init samples m1 m2 s0 =
     (let s = s0\<lparr> display := SEG_INIT \<rparr>;
          s = fold (\<lambda>i. read_temp (fst (samples i)) (snd (samples i))) [0..<200] s;
          s = safeguards s
      in if mode s \<noteq> Running then s
         else (click_relays s)\<lparr> state := 1, lastTick := m1,
                                 nextSecondTick := m2 + SECOND \<rparr>)"

text \<open>One step of the running device: a pass of the duty loop, or a turn of the alarm loop.\<close>

definition step :: "reading \<Rightarrow> ctrl \<Rightarrow> ctrl" where
  "step inp s = (case mode s of Running \<Rightarrow> loop_body inp s | Alarm err \<Rightarrow> alarm_cycle err s)"

definition run :: "reading list \<Rightarrow> ctrl \<Rightarrow> ctrl" where
  "run inps s = fold step inps s"

text \<open>Every configuration the device can be in from power-on.\<close>

inductive reachable :: "ctrl \<Rightarrow> bool" where
  cold: "reachable power_on"
| booted: "reachable (arduino_setup power_on)"
| started: "reachable (loop_init samples m1 m2 (arduino_setup power_on))"
| stepped: "reachable s \<Longrightarrow> reachable (step inp s)"

text \<open>The configurations from the moment the duty loop begins.\<close>

inductive in_duty_loop :: "ctrl \<Rightarrow> bool" where
  entered: "mode (loop_init samples m1 m2 (arduino_setup power_on)) = Running \<Longrightarrow>
            in_duty_loop (loop_init samples m1 m2 (arduino_setup power_on))"
| passed: "in_duty_loop s \<Longrightarrow> in_duty_loop (step inp s)"

subsection \<open>Names for what the code computes\<close>

text \<open>
  The definitions below name the conditions and values that the handlers compute, read
  off the globals at the moment a handler is entered. The lemmas of the next section
  prove that the handlers compute exactly these.
\<close>

definition relay_level :: "int \<Rightarrow> level" where
  "relay_level st = (if st \<noteq> 0 then LOW else HIGH)"

text \<open>The effect of \<open>fan(f); compressor(c); solenoid(v);\<close> in this order.\<close>

definition relays :: "int \<Rightarrow> int \<Rightarrow> int \<Rightarrow> ctrl \<Rightarrow> ctrl" where
  "relays f c v s =
     s\<lparr> pins := (pins s)(FanPin := relay_level f, CompressorPin := relay_level c,
                          SolenoidPin := relay_level v),
        wlog := wlog s @ [(FanPin, relay_level f), (CompressorPin, relay_level c),
                          (SolenoidPin, relay_level v)] \<rparr>"

text \<open>Starting: the timer as \<open>do_state_2\<close> uses it, set on the first pass in the state.\<close>

definition start_timer :: "ctrl \<Rightarrow> ulong" where
  "start_timer s = (if state_last s \<noteq> 2 then seconds s + 3 else st2_timer s)"

definition cool_start :: "ctrl \<Rightarrow> ulong" where
  "cool_start s = (if state_last s \<noteq> 3 then seconds s else st3_start s)"

text \<open>Holding: the timer and the three exit tests of \<open>do_state_4\<close>, in source order.\<close>

definition hold_timer :: "ctrl \<Rightarrow> ulong" where
  "hold_timer s = (if state_last s \<noteq> 4 then seconds s + HOLD_TIME else st4_timer s)"

definition hold_a :: "ctrl \<Rightarrow> bool" where
  "hold_a s = (seconds s = hold_timer s)"

definition hold_b :: "ctrl \<Rightarrow> bool" where
  "hold_b s = (T s > targetTemp s + 0.2 \<and> hold_timer s - seconds s < HOLD_TIME - 5)"

definition hold_c :: "ctrl \<Rightarrow> bool" where
  "hold_c s = (T s < targetTemp s - hysteresis s)"

text \<open>Cooldown: the timer of \<open>do_state_5\<close> and the test that it has run out.\<close>

definition cooldown_timer :: "ctrl \<Rightarrow> ulong" where
  "cooldown_timer s =
     (if state_last s \<noteq> 5 then seconds s + COOLDOWN_TIME else st5_timer s)"

definition cooldown_due :: "ctrl \<Rightarrow> bool" where
  "cooldown_due s = (seconds s = cooldown_timer s)"

text \<open>The value the adaptive block assigns to \<open>targetCaseTemp\<close>.\<close>

definition adapted :: "ctrl \<Rightarrow> real" where
  "adapted s = min ((3 * targetCaseTemp s + T2 s + 2.0) / 4) 30"

text \<open>\<open>between x y z\<close>: \<open>y\<close> lies strictly between \<open>x\<close> and \<open>z\<close>, whichever is larger.\<close>

definition between :: "real \<Rightarrow> real \<Rightarrow> real \<Rightarrow> bool" where
  "between x y z = ((x < y \<and> y < z) \<or> (z < y \<and> y < x))"

text \<open>The writes to the pump pin among all writes so far.\<close>

definition pump_writes :: "ctrl \<Rightarrow> (nat \<times> level) list" where
  "pump_writes s = filter (\<lambda>w. fst w = PumpPin) (wlog s)"

subsection \<open>Concrete configurations used in the examples\<close>

text \<open>Idle, water at 20 (above 16.8) and case at 25 (above 22).\<close>

definition idle_both :: ctrl where
  "idle_both = power_on\<lparr> state := 1, state_last := 1, T := 20, Tlast := 20,
                          T2 := 25, T2last := 25, nextSecondTick := 16000 \<rparr>"

text \<open>Holding since 600 s (the timer has just run out), water at 16.5 (above 16.2).\<close>

definition hold_expired_warm :: ctrl where
  "hold_expired_warm = power_on\<lparr> state := 4, state_last := 4, seconds := 700,
                                  st4_timer := 700, T := 16.5, Tlast := 16.5,
                                  T2 := 20, T2last := 20 \<rparr>"



text \<open>Idle with the filtered water temperature at the upper bound, and at the lower one.\<close>

definition idle_at_50 :: ctrl where
  "idle_at_50 = power_on\<lparr> state := 1, state_last := 1, T := 50, Tlast := 50,
                           T2 := 20, T2last := 20, nextSecondTick := 16000 \<rparr>"

definition idle_at_3 :: ctrl where
  "idle_at_3 = power_on\<lparr> state := 1, state_last := 1, T := 3, Tlast := 3,
                          T2 := 20, T2last := 20, nextSecondTick := 16000 \<rparr>"

text \<open>
  Idle with the filtered water temperature at the binary32 value 2226393 / 65536
  (33.97206...); the binary32 value 556611 / 16384 (33.97283...) is 204 values above it.
\<close>

definition idle_at_33 :: ctrl where
  "idle_at_33 = power_on\<lparr> state := 1, state_last := 1,
                           T := 2226393 / 65536, Tlast := 2226393 / 65536,
                           T2 := 20, T2last := 20, nextSecondTick := 16000 \<rparr>"

text \<open>Readings: water at 70, at -17, and the pair 20 / 25, all taken at 15.05 s.\<close>

definition reading_70 :: reading where
  "reading_70 = \<lparr> millis = 15050, temp1 = 70, temp2 = 20 \<rparr>"

definition reading_minus_17 :: reading where
  "reading_minus_17 = \<lparr> millis = 15050, temp1 = - 17, temp2 = 20 \<rparr>"

definition reading_20_25 :: reading where
  "reading_20_25 = \<lparr> millis = 15050, temp1 = 20, temp2 = 25 \<rparr>"



text \<open>
  Idle, 7 s counted, with the next second boundary 6 ms before the 32-bit millisecond
  clock wraps, and the last pass at 4294967190. The boundary is reached from a duty loop
  that started with \<open>millis() = 15290\<close>: 15290 + 1000 + 4294951 * 1000 = 4294967290.
\<close>

definition near_wrap :: ctrl where
  "near_wrap = power_on\<lparr> state := 1, state_last := 1, T := 16, Tlast := 16,
                          T2 := 20, T2last := 20, seconds := 7,
                          thisTick := 4294967190, lastTick := 15290,
                          nextSecondTick := 4294967290 \<rparr>"

text \<open>
  Idle, 7 s counted, just before the wrap: the pass at 4294967286 has ticked and moved the
  boundary from 4294967276 to 980 (4294967276 + 1000 - 2^32).
\<close>

definition after_wrap :: ctrl where
  "after_wrap = power_on\<lparr> state := 1, state_last := 1, T := 16, Tlast := 16,
                           T2 := 20, T2last := 20, seconds := 7,
                           thisTick := 4294967286, lastTick := 15276,
                           nextSecondTick := 980 \<rparr>"

definition at_ms :: "ulong \<Rightarrow> reading" where
  "at_ms m = \<lparr> millis = m, temp1 = 16, temp2 = 20 \<rparr>"

text \<open>The value of \<open>tick\<close> and of \<open>seconds\<close> at the end of each pass of a run.\<close>

fun tick_trace :: "reading list \<Rightarrow> ctrl \<Rightarrow> (bool \<times> ulong) list" where
  "tick_trace [] s = []"
| "tick_trace (r # rs) s = (tick (step r s), seconds (step r s)) # tick_trace rs (step r s)"

text \<open>The device after a start with both thermistors at 20 throughout the settling.\<close>

definition booted_20 :: ctrl where
  "booted_20 = loop_init (\<lambda>_. (20, 20)) 15000 15000 (arduino_setup power_on)"

text \<open>
  Idle and running with the filters at 16 and 20 and the setpoints as initialised: with
  readings of 16 and 20 the device stays like this.
\<close>

definition steady :: "ctrl \<Rightarrow> bool" where
  "steady s = (mode s = Running \<and> state s = 1 \<and> Tlast s = 16 \<and> T2last s = 20 \<and>
               targetTemp s = 16 \<and> hysteresis s = 0.8 \<and> targetCaseTemp s = 22)"

section \<open>The handlers in closed form\<close>

lemma relays_eq: "solenoid v (compressor c (fan f s)) = relays f c v s"
  by (simp add: solenoid_def compressor_def fan_def digitalWrite_def relay_level_def relays_def)

lemma errmesg_eq: "errmesg e s = (relays 0 0 0 s)\<lparr> mode := Alarm e \<rparr>"
  by (simp add: errmesg_def relays_eq)

lemma if_upd:
  "(if c then s\<lparr> state_new := n \<rparr> else s) = s\<lparr> state_new := (if c then n else state_new s) \<rparr>"
  "(if c then s\<lparr> st2_timer := w \<rparr> else s) = s\<lparr> st2_timer := (if c then w else st2_timer s) \<rparr>"
  "(if c then s\<lparr> st3_start := w \<rparr> else s) = s\<lparr> st3_start := (if c then w else st3_start s) \<rparr>"
  "(if c then s\<lparr> st4_timer := w \<rparr> else s) = s\<lparr> st4_timer := (if c then w else st4_timer s) \<rparr>"
  "(if c then s\<lparr> st5_timer := w \<rparr> else s) = s\<lparr> st5_timer := (if c then w else st5_timer s) \<rparr>"
  "(if c then s\<lparr> state_new := n, targetCaseTemp := x \<rparr> else s) =
     s\<lparr> state_new := (if c then n else state_new s),
        targetCaseTemp := (if c then x else targetCaseTemp s) \<rparr>"
  by simp_all

lemma do_state_1_eq:
  "do_state_1 s =
     (0, (relays 0 0 0 s)\<lparr> state_new :=
            (if T s > targetTemp s + hysteresis s then 2
             else if T2 s > targetCaseTemp s then 5 else state_new s) \<rparr>)"
  by (simp add: do_state_1_def relays_eq relays_def Let_def if_upd
        split del: if_split cong: if_cong)

lemma do_state_2_eq:
  "do_state_2 s =
     (0, (relays 0 1 1 s)\<lparr> st2_timer := start_timer s,
            state_new := (if seconds s = start_timer s then 3 else state_new s) \<rparr>)"
  by (simp add: do_state_2_def relays_eq relays_def Let_def if_upd start_timer_def
        split del: if_split cong: if_cong)

lemma do_state_3_eq:
  "do_state_3 s =
     (0, (relays 1 1 0 s)\<lparr> st3_start := cool_start s,
            state_new := (if T s \<le> targetTemp s \<and> seconds s - cool_start s > 5 then 4
                          else state_new s) \<rparr>)"
  by (simp add: do_state_3_def relays_eq relays_def Let_def if_upd cool_start_def
        split del: if_split cong: if_cong)

lemma do_state_4_eq:
  "do_state_4 s =
     (0, (relays 1 1 1 s)\<lparr> st4_timer := hold_timer s,
            state_new := (if hold_c s then 5 else if hold_b s then 3
                          else if hold_a s then 5 else state_new s) \<rparr>)"
  by (simp add: do_state_4_def relays_eq relays_def Let_def if_upd hold_a_def hold_b_def
        hold_c_def hold_timer_def split del: if_split cong: if_cong)

lemma intelli_case_eq: "intelli_case s = s\<lparr> targetCaseTemp := adapted s \<rparr>"
  by (simp add: intelli_case_def adapted_def Let_def CASE_TEMP_MARGIN_def CASE_TEMP_ROOF_def
        min_def algebra_simps)

lemma do_state_5_eq:
  "do_state_5 s =
     (0, (relays 1 0 0 s)\<lparr> st5_timer := cooldown_timer s,
            state_new := (if T s > targetTemp s + hysteresis s then 2
                          else if cooldown_due s then 1 else state_new s),
            targetCaseTemp := (if cooldown_due s then adapted s else targetCaseTemp s) \<rparr>)"
  by (simp add: do_state_5_def relays_eq relays_def Let_def if_upd intelli_case_eq adapted_def
        cooldown_due_def cooldown_timer_def split del: if_split cong: if_cong)

lemmas handler_eqs = do_state_1_eq do_state_2_eq do_state_3_eq do_state_4_eq do_state_5_eq

section \<open>The state handlers\<close>

text \<open>
  C3 (as amended). In Idle, \<open>do_state_1\<close> tests the case temperature first and the
  water temperature second, and the second assignment overwrites the first. So when both
  \<open>T > targetTemp + hysteresis\<close> and \<open>T2 > targetCaseTemp\<close> hold on the same
  pass, the requested next state is Starting (2), not Cooldown (5).
\<close>

theorem idle_both_requests_starting:
  assumes "T s > targetTemp s + hysteresis s" and "T2 s > targetCaseTemp s"
  shows "state_new (snd (do_state_1 s)) = 2"
  using assms by (simp add: do_state_1_eq)

theorem idle_both_requests_starting_witness:
  "T idle_both > targetTemp idle_both + hysteresis idle_both \<and>
   T2 idle_both > targetCaseTemp idle_both \<and>
   state_new (snd (do_state_1 idle_both)) = 2"
proof -
  have a: "T idle_both > targetTemp idle_both + hysteresis idle_both"
    by (simp add: idle_both_def power_on_def)
  have b: "T2 idle_both > targetCaseTemp idle_both"
    by (simp add: idle_both_def power_on_def)
  from idle_both_requests_starting [OF a b] a b show ?thesis by simp
qed

theorem idle_cooldown_priority_counterexample:
  "T idle_both > targetTemp idle_both + hysteresis idle_both \<and>
   T2 idle_both > targetCaseTemp idle_both \<and>
   state_new (snd (do_state_1 idle_both)) \<noteq> 5"
  by (simp add: do_state_1_eq idle_both_def power_on_def)

text \<open>
  C4 (as amended). In Holding, \<open>do_state_4\<close> runs the three exit tests in the order
  (a) timer run out, (b) water above target + 0.2 with less than 595 s left on the timer,
  (c) water below target - hysteresis, and every test that fires overwrites the request
  of the earlier ones. The request is therefore decided by (c), else (b), else (a).
  In particular, on a pass where (a) and (b) both hold the requested next state is
  Cooling (3), not Cooldown (5); (c) cannot hold on such a pass unless the hysteresis is
  below -0.2.
\<close>

theorem holding_last_test_wins:
  "state_new (snd (do_state_4 s)) =
     (if hold_c s then 5 else if hold_b s then 3 else if hold_a s then 5 else state_new s)
   \<and> (hold_a s \<and> hold_b s \<and> - 0.2 \<le> hysteresis s \<longrightarrow> state_new (snd (do_state_4 s)) = 3)"
proof -
  have "\<not> hold_c s" if "hold_b s" "- 0.2 \<le> hysteresis s"
    using that by (simp add: hold_b_def hold_c_def)
  then show ?thesis by (auto simp add: do_state_4_eq)
qed

theorem holding_last_test_wins_witness:
  "hold_a hold_expired_warm \<and> hold_b hold_expired_warm \<and>
   - 0.2 \<le> hysteresis hold_expired_warm \<and>
   state_new (snd (do_state_4 hold_expired_warm)) = 3"
proof -
  have h: "hold_a hold_expired_warm \<and> hold_b hold_expired_warm \<and>
           - 0.2 \<le> hysteresis hold_expired_warm"
    by (simp add: hold_a_def hold_b_def hold_timer_def HOLD_TIME_def hold_expired_warm_def
          power_on_def)
  with holding_last_test_wins [of hold_expired_warm] show ?thesis by blast
qed

theorem holding_timer_priority_counterexample:
  "seconds hold_expired_warm = st4_timer hold_expired_warm \<and>
   state_last hold_expired_warm = 4 \<and>
   T hold_expired_warm > targetTemp hold_expired_warm + 0.2 \<and>
   st4_timer hold_expired_warm - seconds hold_expired_warm < HOLD_TIME - 5 \<and>
   state_new (snd (do_state_4 hold_expired_warm)) \<noteq> 5"
  by (simp add: do_state_4_eq hold_a_def hold_b_def hold_c_def hold_timer_def HOLD_TIME_def
        hold_expired_warm_def power_on_def)




section \<open>The smoothing filter\<close>

lemma read_temp_T:
  "T (read_temp a b s) = (if Tlast s \<noteq> 0 then (Tlast s * 199 + a) / 200 else a)"
  "T2 (read_temp a b s) = (if T2last s \<noteq> 0 then (T2last s * 99 + b) / 100 else b)"
  "Tlast (read_temp a b s) = T (read_temp a b s)"
  "T2last (read_temp a b s) = T2 (read_temp a b s)"
  by (simp_all add: read_temp_def Let_def)

text \<open>The error of one rounding: half a unit in the last place.\<close>

lemma rne_error: "\<bar>of_int (rne x) - x\<bar> \<le> 1 / 2"
proof -
  have "of_int \<lfloor>x\<rfloor> \<le> x" "x < of_int \<lfloor>x\<rfloor> + 1"
    by linarith+
  then show ?thesis
    by (auto simp add: rne_def Let_def)
qed

lemma f32_round_error: "\<bar>f32_round x - x\<bar> \<le> \<bar>x\<bar> / 2 ^ 24 + 1 / 2 ^ 150"
proof -
  define m where "m = \<bar>x\<bar> * 2 ^ 149"
  define s where "s = nat (bitlen \<lfloor>m\<rfloor> - 24)"
  define y where "y = m / 2 ^ s"
  define k :: real where "k = 2 ^ s / 2 ^ 149"
  have k0: "0 \<le> k"
    by (simp add: k_def)
  have fx: "f32_round x = sgn x * (of_int (rne y) * k)"
    by (simp add: f32_round_def Let_def m_def s_def y_def k_def)
  have "y * k = \<bar>x\<bar>"
    by (simp add: y_def k_def m_def)
  then have xx: "x = sgn x * (y * k)"
    by (simp add: mult_sgn_abs)
  have "f32_round x - x = sgn x * (of_int (rne y) * k) - sgn x * (y * k)"
    using fx xx by simp
  also have "\<dots> = sgn x * ((of_int (rne y) - y) * k)"
    by (simp only: right_diff_distrib left_diff_distrib)
  finally have "\<bar>f32_round x - x\<bar> = \<bar>sgn x\<bar> * (\<bar>of_int (rne y) - y\<bar> * k)"
    using k0 by (simp only: abs_mult abs_of_nonneg)
  also have "\<dots> \<le> 1 * ((1 / 2) * k)"
    using k0 by (intro mult_mono mult_right_mono rne_error) (simp_all add: abs_sgn_eq)
  finally have bound: "\<bar>f32_round x - x\<bar> \<le> k / 2"
    by simp
  show ?thesis
  proof (cases "s = 0")
    case True
    then have "k / 2 = 1 / 2 ^ 150"
      by (simp add: k_def)
    with bound have "\<bar>f32_round x - x\<bar> \<le> 1 / 2 ^ 150"
      by simp
    moreover have "0 \<le> \<bar>x\<bar> / 2 ^ 24"
      by simp
    ultimately show ?thesis
      by linarith
  next
    case False
    then have b: "bitlen \<lfloor>m\<rfloor> - 24 = int s" "0 < \<lfloor>m\<rfloor>"
      using bitlen_eq_zero_iff [of "\<lfloor>m\<rfloor>"] by (auto simp add: s_def not_le)
    have "nat (bitlen \<lfloor>m\<rfloor> - 1) = s + 23"
      using b(1) by simp
    with bitlen_bounds [OF b(2)] have "(2::int) ^ (s + 23) \<le> \<lfloor>m\<rfloor>"
      by simp
    then have "(2::real) ^ (s + 23) \<le> of_int \<lfloor>m\<rfloor>"
      by (metis of_int_le_iff of_int_numeral of_int_power)
    also have "\<dots> \<le> m"
      by simp
    finally have "(2::real) ^ s * 2 ^ 23 \<le> \<bar>x\<bar> * 2 ^ 149"
      by (simp only: power_add m_def)
    then have "(2::real) ^ s * 2 ^ 23 / (2 ^ 23 * 2 ^ 150) \<le> \<bar>x\<bar> * 2 ^ 149 / (2 ^ 23 * 2 ^ 150)"
      by (rule divide_right_mono) simp
    moreover have "(2::real) ^ s * 2 ^ 23 / (2 ^ 23 * 2 ^ 150) = k / 2"
      by (simp add: k_def)
    moreover have "\<bar>x\<bar> * 2 ^ 149 / (2 ^ 23 * 2 ^ 150) = \<bar>x\<bar> / 2 ^ 24"
      by simp
    ultimately have "k / 2 \<le> \<bar>x\<bar> / 2 ^ 24"
      by simp
    with bound show ?thesis
      by simp
  qed
qed

text \<open>\<open>f32_round\<close> at a value whose binary exponent is known.\<close>

lemma bitlen_eqI:
  assumes "2 ^ w \<le> n" and "n < 2 ^ Suc w"
  shows "bitlen n = int w + 1"
proof (rule antisym)
  show "bitlen n \<le> int w + 1"
    using assms(2) by (simp add: bitlen_le_iff_power nat_add_distrib)
  show "int w + 1 \<le> bitlen n"
    using assms(1) by (simp add: bitlen_ge_iff_power nat_add_distrib)
qed

lemma f32_round_scaled:
  assumes "0 < x" and j: "j \<le> 149" and lo: "2 ^ 23 \<le> x * 2 ^ j" and hi: "x * 2 ^ j < 2 ^ 24"
  shows "f32_round x = of_int (rne (x * 2 ^ j)) / 2 ^ j"
proof -
  define i where "i = 149 - j"
  define m where "m = \<bar>x\<bar> * 2 ^ 149"
  have p: "(2::real) ^ 149 = 2 ^ j * 2 ^ i"
    using j by (simp add: i_def flip: power_add)
  have m: "m = (x * 2 ^ j) * 2 ^ i"
    unfolding m_def p using assms(1) by simp
  have "(2::real) ^ (23 + i) \<le> m"
    unfolding m power_add using lo by (intro mult_right_mono) simp_all
  then have "of_int ((2::int) ^ (23 + i)) \<le> m"
    by simp
  then have l: "(2::int) ^ (23 + i) \<le> \<lfloor>m\<rfloor>"
    by (simp only: le_floor_iff)
  have "m < (2::real) ^ (24 + i)"
    unfolding m power_add using hi by (intro mult_strict_right_mono) simp_all
  then have "m < of_int ((2::int) ^ Suc (23 + i))"
    by simp
  then have h: "\<lfloor>m\<rfloor> < (2::int) ^ Suc (23 + i)"
    by (simp only: floor_less_iff)
  have "bitlen \<lfloor>m\<rfloor> = int (23 + i) + 1"
    using l h by (rule bitlen_eqI)
  then have s: "nat (bitlen \<lfloor>m\<rfloor> - 24) = i"
    by simp
  have y: "m / 2 ^ i = x * 2 ^ j"
    by (simp add: m)
  have "f32_round x = sgn x * (of_int (rne (x * 2 ^ j)) * 2 ^ i / 2 ^ 149)"
    unfolding f32_round_def Let_def m_def [symmetric] s y ..
  also have "\<dots> = of_int (rne (x * 2 ^ j)) / 2 ^ j"
    unfolding p using assms(1) by simp
  finally show ?thesis .
qed

lemma f32_round_within:
  assumes "\<bar>x\<bar> \<le> K" and "1 / 2 ^ 100 \<le> M"
  shows "\<bar>f32_round x - x\<bar> \<le> K / 16777216 + M / 1125899906842624"
proof -
  have "\<bar>x\<bar> / 2 ^ 24 \<le> K / 2 ^ 24"
    using assms(1) by (rule divide_right_mono) simp
  moreover have "(1 / 2 ^ 100) / 2 ^ 50 \<le> M / 2 ^ 50"
    using assms(2) by (rule divide_right_mono) simp
  then have "1 / 2 ^ 150 \<le> M / 2 ^ 50"
    by simp
  ultimately have "\<bar>f32_round x - x\<bar> \<le> K / 2 ^ 24 + M / 2 ^ 50"
    using f32_round_error [of x] by linarith
  then show ?thesis
    by simp
qed

text \<open>
  The three roundings of the 199:1 filter together move the result by less than
  \<open>M / 2^14 / 200\<close> from the exact weighted mean, for values of magnitude at most \<open>M\<close>.
\<close>

lemma budget_199:
  fixes M :: real
  assumes "g \<le> e3 + (e2 / 200 + e1 / 200)"
    and "e1 \<le> 199 * M / 16777216 + M / 1125899906842624"
    and "e2 \<le> 201 * M / 16777216 + M / 1125899906842624"
    and "e3 \<le> 2 * M / 16777216 + M / 1125899906842624"
    and "0 < M"
  shows "g < M / 16384 / 200"
  using assms by linarith

lemma ema_199_error:
  assumes t: "\<bar>t\<bar> \<le> M" and a: "\<bar>a\<bar> \<le> M" and M: "1 / 2 ^ 100 \<le> M"
  shows "\<bar>f32_round (f32_round (f32_round (t * 199) + a) / 200) - (t * 199 + a) / 200\<bar>
           < M / 2 ^ 14 / 200"
proof -
  define p where "p = f32_round (t * 199)"
  define q where "q = f32_round (p + a)"
  define r where "r = f32_round (q / 200)"
  have M0: "0 < M"
    using M by (rule less_le_trans [rotated]) simp
  have "\<bar>t * 199\<bar> \<le> 199 * M"
    using t by (simp add: abs_mult)
  from f32_round_within [OF this M]
  have ep: "\<bar>p - t * 199\<bar> \<le> 199 * M / 16777216 + M / 1125899906842624"
    by (simp add: p_def)
  have "\<bar>p + a\<bar> \<le> 201 * M"
    using ep t a M0 by linarith
  from f32_round_within [OF this M]
  have eq: "\<bar>q - (p + a)\<bar> \<le> 201 * M / 16777216 + M / 1125899906842624"
    by (simp add: q_def)
  have "\<bar>q / 200\<bar> \<le> 2 * M"
    using eq ep t a M0 by linarith
  from f32_round_within [OF this M]
  have er: "\<bar>r - q / 200\<bar> \<le> 2 * M / 16777216 + M / 1125899906842624"
    by (simp add: r_def)
  have "r - (t * 199 + a) / 200 = (r - q / 200) + ((q - (p + a)) / 200 + (p - t * 199) / 200)"
    by (simp add: field_simps)
  also have "\<bar>\<dots>\<bar> \<le> \<bar>r - q / 200\<bar> + (\<bar>q - (p + a)\<bar> / 200 + \<bar>p - t * 199\<bar> / 200)"
    by (intro order_trans [OF abs_triangle_ineq] add_mono) simp_all
  finally have "\<bar>r - (t * 199 + a) / 200\<bar> < M / 16384 / 200"
    using ep eq er M0 by (rule budget_199)
  then show ?thesis
    by (simp add: r_def q_def p_def)
qed

lemma ema_199_between:
  assumes "1 / 2 ^ 100 \<le> max \<bar>t\<bar> \<bar>a\<bar>"
    and "max \<bar>t\<bar> \<bar>a\<bar> / 2 ^ 14 \<le> \<bar>a - t\<bar>"
  shows "(t < f32_round (f32_round (f32_round (t * 199) + a) / 200) \<and>
          f32_round (f32_round (f32_round (t * 199) + a) / 200) < a) \<or>
         (a < f32_round (f32_round (f32_round (t * 199) + a) / 200) \<and>
          f32_round (f32_round (f32_round (t * 199) + a) / 200) < t)"
proof -
  define r where "r = f32_round (f32_round (f32_round (t * 199) + a) / 200)"
  define M where "M = max \<bar>t\<bar> \<bar>a\<bar>"
  have "\<bar>r - (t * 199 + a) / 200\<bar> < M / 2 ^ 14 / 200"
    unfolding r_def by (rule ema_199_error) (use assms(1) in \<open>simp_all add: M_def\<close>)
  moreover have "M / 2 ^ 14 / 200 \<le> \<bar>a - t\<bar> / 200"
    using assms(2) by (simp add: M_def)
  ultimately have e: "\<bar>r - (t * 199 + a) / 200\<bar> < \<bar>a - t\<bar> / 200"
    by simp
  define v where "v = (t * 199 + a) / 200"
  have v: "200 * v = 199 * t + a"
    by (simp add: v_def)
  from e have lo: "v - r < \<bar>a - t\<bar> / 200" and hi: "r - v < \<bar>a - t\<bar> / 200"
    unfolding v_def [symmetric] abs_less_iff by simp_all
  have "(t < r \<and> r < a) \<or> (a < r \<and> r < t)"
  proof (cases "t < a")
    case True
    then have d: "\<bar>a - t\<bar> = a - t"
      by simp
    have "t < r"
      using lo v True unfolding d by argo
    moreover have "r < a"
      using hi v True unfolding d by argo
    ultimately show ?thesis
      by simp
  next
    case False
    then have d: "\<bar>a - t\<bar> = t - a"
      by simp
    have "a < r"
      using lo v False unfolding d by argo
    moreover have "r < t"
      using hi v False unfolding d by argo
    ultimately show ?thesis
      by simp
  qed
  then show ?thesis
    by (simp add: r_def)
qed

text \<open>The same for the 99:1 filter.\<close>

lemma budget_99:
  fixes M :: real
  assumes "g \<le> e3 + (e2 / 100 + e1 / 100)"
    and "e1 \<le> 99 * M / 16777216 + M / 1125899906842624"
    and "e2 \<le> 101 * M / 16777216 + M / 1125899906842624"
    and "e3 \<le> 2 * M / 16777216 + M / 1125899906842624"
    and "0 < M"
  shows "g < M / 16384 / 100"
  using assms by linarith

lemma ema_99_error:
  assumes t: "\<bar>t\<bar> \<le> M" and a: "\<bar>a\<bar> \<le> M" and M: "1 / 2 ^ 100 \<le> M"
  shows "\<bar>f32_round (f32_round (f32_round (t * 99) + a) / 100) - (t * 99 + a) / 100\<bar>
           < M / 2 ^ 14 / 100"
proof -
  define p where "p = f32_round (t * 99)"
  define q where "q = f32_round (p + a)"
  define r where "r = f32_round (q / 100)"
  have M0: "0 < M"
    using M by (rule less_le_trans [rotated]) simp
  have "\<bar>t * 99\<bar> \<le> 99 * M"
    using t by (simp add: abs_mult)
  from f32_round_within [OF this M]
  have ep: "\<bar>p - t * 99\<bar> \<le> 99 * M / 16777216 + M / 1125899906842624"
    by (simp add: p_def)
  have "\<bar>p + a\<bar> \<le> 101 * M"
    using ep t a M0 by linarith
  from f32_round_within [OF this M]
  have eq: "\<bar>q - (p + a)\<bar> \<le> 101 * M / 16777216 + M / 1125899906842624"
    by (simp add: q_def)
  have "\<bar>q / 100\<bar> \<le> 2 * M"
    using eq ep t a M0 by linarith
  from f32_round_within [OF this M]
  have er: "\<bar>r - q / 100\<bar> \<le> 2 * M / 16777216 + M / 1125899906842624"
    by (simp add: r_def)
  have "r - (t * 99 + a) / 100 = (r - q / 100) + ((q - (p + a)) / 100 + (p - t * 99) / 100)"
    by (simp add: field_simps)
  also have "\<bar>\<dots>\<bar> \<le> \<bar>r - q / 100\<bar> + (\<bar>q - (p + a)\<bar> / 100 + \<bar>p - t * 99\<bar> / 100)"
    by (intro order_trans [OF abs_triangle_ineq] add_mono) simp_all
  finally have "\<bar>r - (t * 99 + a) / 100\<bar> < M / 16384 / 100"
    using ep eq er M0 by (rule budget_99)
  then show ?thesis
    by (simp add: r_def q_def p_def)
qed

lemma ema_99_between:
  assumes "1 / 2 ^ 100 \<le> max \<bar>t\<bar> \<bar>a\<bar>"
    and "max \<bar>t\<bar> \<bar>a\<bar> / 2 ^ 14 \<le> \<bar>a - t\<bar>"
  shows "(t < f32_round (f32_round (f32_round (t * 99) + a) / 100) \<and>
          f32_round (f32_round (f32_round (t * 99) + a) / 100) < a) \<or>
         (a < f32_round (f32_round (f32_round (t * 99) + a) / 100) \<and>
          f32_round (f32_round (f32_round (t * 99) + a) / 100) < t)"
proof -
  define r where "r = f32_round (f32_round (f32_round (t * 99) + a) / 100)"
  define M where "M = max \<bar>t\<bar> \<bar>a\<bar>"
  have "\<bar>r - (t * 99 + a) / 100\<bar> < M / 2 ^ 14 / 100"
    unfolding r_def by (rule ema_99_error) (use assms(1) in \<open>simp_all add: M_def\<close>)
  moreover have "M / 2 ^ 14 / 100 \<le> \<bar>a - t\<bar> / 100"
    using assms(2) by (simp add: M_def)
  ultimately have e: "\<bar>r - (t * 99 + a) / 100\<bar> < \<bar>a - t\<bar> / 100"
    by simp
  define v where "v = (t * 99 + a) / 100"
  have v: "100 * v = 99 * t + a"
    by (simp add: v_def)
  from e have lo: "v - r < \<bar>a - t\<bar> / 100" and hi: "r - v < \<bar>a - t\<bar> / 100"
    unfolding v_def [symmetric] abs_less_iff by simp_all
  have "(t < r \<and> r < a) \<or> (a < r \<and> r < t)"
  proof (cases "t < a")
    case True
    then have d: "\<bar>a - t\<bar> = a - t"
      by simp
    have "t < r"
      using lo v True unfolding d by argo
    moreover have "r < a"
      using hi v True unfolding d by argo
    ultimately show ?thesis
      by simp
  next
    case False
    then have d: "\<bar>a - t\<bar> = t - a"
      by simp
    have "a < r"
      using lo v False unfolding d by argo
    moreover have "r < t"
      using hi v False unfolding d by argo
    ultimately show ?thesis
      by simp
  qed
  then show ?thesis
    by (simp add: r_def)
qed

lemma read_temp_f32_T:
  "T (read_temp_f32 a b s) =
     (if Tlast s \<noteq> 0 then f32_round (f32_round (f32_round (Tlast s * 199) + a) / 200) else a)"
  "T2 (read_temp_f32 a b s) =
     (if T2last s \<noteq> 0 then f32_round (f32_round (f32_round (T2last s * 99) + b) / 100) else b)"
  by (simp_all add: read_temp_f32_def Let_def)

lemma rounds_onto_previous:
  "f32_round (2226393 / 65536) = 2226393 / 65536"
  "f32_round (556611 / 16384) = 556611 / 16384"
  "f32_round (f32_round (f32_round (2226393 / 65536 * 199) + 556611 / 16384) / 200) =
     2226393 / 65536"
proof -
  show "f32_round (2226393 / 65536) = 2226393 / 65536"
    using f32_round_scaled [of "2226393 / 65536" 18] by (simp add: rne_def)
  show "f32_round (556611 / 16384) = 556611 / 16384"
    using f32_round_scaled [of "556611 / 16384" 18] by (simp add: rne_def)
  have p: "f32_round (2226393 / 65536 * 199) = 13845381 / 2048"
    using f32_round_scaled [of "2226393 / 65536 * 199" 11] by (simp add: rne_def)
  have q: "f32_round (13845381 / 2048 + 556611 / 16384) = 13914957 / 2048"
    using f32_round_scaled [of "13845381 / 2048 + 556611 / 16384" 11] by (simp add: rne_def)
  have r: "f32_round (13914957 / 2048 / 200) = 2226393 / 65536"
    using f32_round_scaled [of "13914957 / 2048 / 200" 18] by (simp add: rne_def)
  show "f32_round (f32_round (f32_round (2226393 / 65536 * 199) + 556611 / 16384) / 200) =
          2226393 / 65536"
    by (simp only: p q r)
qed

text \<open>
  C8 (as amended). In the binary32 arithmetic of the sketch, for a sample whose previous
  filtered value is not 0 (the value that \<open>read_temp\<close> takes for "no sample yet") and
  differs from the newly converted value by at least 2^-14 of the larger of the two
  magnitudes, the new filtered value lies strictly between the two, for the weights 199:1
  of the first sensor and 99:1 of the second. The magnitudes are taken between 2^-100 and
  2^100. Without the separation the statement fails: two equal values have nothing
  between them, after a filtered value of exactly 0 the next sample is taken as it is,
  and a new value close to the previous one is rounded away (from 2226393 / 65536 with
  the new value 556611 / 16384 the filter returns 2226393 / 65536 again).
\<close>

theorem filtered_between_separated:
  "(Tlast s \<noteq> 0 \<and> 1 / 2 ^ 100 \<le> max \<bar>Tlast s\<bar> \<bar>a\<bar> \<and> max \<bar>Tlast s\<bar> \<bar>a\<bar> \<le> 2 ^ 100 \<and>
    max \<bar>Tlast s\<bar> \<bar>a\<bar> / 2 ^ 14 \<le> \<bar>a - Tlast s\<bar> \<longrightarrow>
      between (Tlast s) (T (read_temp_f32 a b s)) a) \<and>
   (T2last s \<noteq> 0 \<and> 1 / 2 ^ 100 \<le> max \<bar>T2last s\<bar> \<bar>b\<bar> \<and> max \<bar>T2last s\<bar> \<bar>b\<bar> \<le> 2 ^ 100 \<and>
    max \<bar>T2last s\<bar> \<bar>b\<bar> / 2 ^ 14 \<le> \<bar>b - T2last s\<bar> \<longrightarrow>
      between (T2last s) (T2 (read_temp_f32 a b s)) b)"
  using ema_199_between [of "Tlast s" a] ema_99_between [of "T2last s" b]
  by (simp add: read_temp_f32_T between_def)

theorem filtered_between_separated_witness:
  "Tlast idle_both \<noteq> 0 \<and> 1 / 2 ^ 100 \<le> max \<bar>Tlast idle_both\<bar> \<bar>40\<bar> \<and>
   max \<bar>Tlast idle_both\<bar> \<bar>40\<bar> \<le> 2 ^ 100 \<and>
   max \<bar>Tlast idle_both\<bar> \<bar>40\<bar> / 2 ^ 14 \<le> \<bar>40 - Tlast idle_both\<bar> \<and>
   between (Tlast idle_both) (T (read_temp_f32 40 5 idle_both)) 40 \<and>
   T2last idle_both \<noteq> 0 \<and> 1 / 2 ^ 100 \<le> max \<bar>T2last idle_both\<bar> \<bar>5\<bar> \<and>
   max \<bar>T2last idle_both\<bar> \<bar>5\<bar> \<le> 2 ^ 100 \<and>
   max \<bar>T2last idle_both\<bar> \<bar>5\<bar> / 2 ^ 14 \<le> \<bar>5 - T2last idle_both\<bar> \<and>
   between (T2last idle_both) (T2 (read_temp_f32 40 5 idle_both)) 5"
proof -
  have h1: "Tlast idle_both \<noteq> 0 \<and> 1 / 2 ^ 100 \<le> max \<bar>Tlast idle_both\<bar> \<bar>40\<bar> \<and>
            max \<bar>Tlast idle_both\<bar> \<bar>40\<bar> \<le> 2 ^ 100 \<and>
            max \<bar>Tlast idle_both\<bar> \<bar>40\<bar> / 2 ^ 14 \<le> \<bar>40 - Tlast idle_both\<bar>"
    by (simp add: idle_both_def power_on_def)
  have h2: "T2last idle_both \<noteq> 0 \<and> 1 / 2 ^ 100 \<le> max \<bar>T2last idle_both\<bar> \<bar>5\<bar> \<and>
            max \<bar>T2last idle_both\<bar> \<bar>5\<bar> \<le> 2 ^ 100 \<and>
            max \<bar>T2last idle_both\<bar> \<bar>5\<bar> / 2 ^ 14 \<le> \<bar>5 - T2last idle_both\<bar>"
    by (simp add: idle_both_def power_on_def)
  from filtered_between_separated [of idle_both 40 5] h1 h2 show ?thesis
    by blast
qed

theorem filtered_between_counterexample:
  "\<not> between (T (read_temp_f32 20 20 power_on))
             (T (read_temp_f32 20 20 (read_temp_f32 20 20 power_on))) 20 \<and>
   \<not> between (T (read_temp_f32 0 0 power_on))
             (T (read_temp_f32 10 10 (read_temp_f32 0 0 power_on))) 10 \<and>
   Tlast idle_at_33 \<noteq> 0 \<and> Tlast idle_at_33 \<noteq> 556611 / 16384 \<and>
   f32_round (Tlast idle_at_33) = Tlast idle_at_33 \<and>
   f32_round (556611 / 16384) = 556611 / 16384 \<and>
   T (read_temp_f32 (556611 / 16384) 20 idle_at_33) = Tlast idle_at_33 \<and>
   \<not> between (Tlast idle_at_33) (T (read_temp_f32 (556611 / 16384) 20 idle_at_33))
             (556611 / 16384)"
proof -
  have a: "\<not> between (T (read_temp_f32 20 20 power_on))
                      (T (read_temp_f32 20 20 (read_temp_f32 20 20 power_on))) 20"
    by (simp add: read_temp_f32_T between_def power_on_def)
  have b: "\<not> between (T (read_temp_f32 0 0 power_on))
                      (T (read_temp_f32 10 10 (read_temp_f32 0 0 power_on))) 10"
    by (simp add: read_temp_f32_def Let_def between_def power_on_def)
  have t: "Tlast idle_at_33 = 2226393 / 65536"
    by (simp add: idle_at_33_def power_on_def)
  have "T (read_temp_f32 (556611 / 16384) 20 idle_at_33) =
          f32_round (f32_round (f32_round (Tlast idle_at_33 * 199) + 556611 / 16384) / 200)"
    using t by (simp add: read_temp_f32_T)
  also have "\<dots> = 2226393 / 65536"
    unfolding t by (rule rounds_onto_previous(3))
  finally have c: "T (read_temp_f32 (556611 / 16384) 20 idle_at_33) = 2226393 / 65536" .
  show ?thesis
    using a b by (simp add: t c rounds_onto_previous(1,2) between_def)
qed

section \<open>The stages of one pass\<close>

lemma handler_rc:
  "fst (do_state_1 s) = 0" "fst (do_state_2 s) = 0" "fst (do_state_3 s) = 0"
  "fst (do_state_4 s) = 0" "fst (do_state_5 s) = 0"
  by (simp_all add: handler_eqs)

lemma state_machine_eq:
  "state_machine s =
     (if state s = 1 then snd (do_state_1 s)
      else if state s = 2 then snd (do_state_2 s)
      else if state s = 3 then snd (do_state_3 s)
      else if state s = 4 then snd (do_state_4 s)
      else if state s = 5 then snd (do_state_5 s)
      else errmesg 99 s)"
  by (simp add: state_machine_def checked_def handler_rc)

lemma second_counter_frame:
  "targetCaseTemp (second_counter now s) = targetCaseTemp s"
  "T (second_counter now s) = T s"
  "T2 (second_counter now s) = T2 s"
  "Tlast (second_counter now s) = Tlast s"
  "T2last (second_counter now s) = T2last s"
  "state (second_counter now s) = state s"
  "state_last (second_counter now s) = state_last s"
  "state_new (second_counter now s) = state_new s"
  "st5_timer (second_counter now s) = st5_timer s"
  "wlog (second_counter now s) = wlog s"
  "mode (second_counter now s) = mode s"
  by (simp_all add: second_counter_def Let_def)

lemma read_temp_frame:
  "targetCaseTemp (read_temp a b s) = targetCaseTemp s"
  "seconds (read_temp a b s) = seconds s"
  "state (read_temp a b s) = state s"
  "state_last (read_temp a b s) = state_last s"
  "state_new (read_temp a b s) = state_new s"
  "st5_timer (read_temp a b s) = st5_timer s"
  "wlog (read_temp a b s) = wlog s"
  "mode (read_temp a b s) = mode s"
  by (simp_all add: read_temp_def Let_def)

lemma state_machine_frame:
  "T (state_machine s) = T s"
  "T2 (state_machine s) = T2 s"
  "seconds (state_machine s) = seconds s"
  "state (state_machine s) = state s"
  "state_last (state_machine s) = state_last s"
  by (simp_all add: state_machine_eq handler_eqs errmesg_eq relays_def)

lemma state_machine_mode:
  "mode (state_machine s) = (if state s \<in> {1, 2, 3, 4, 5} then mode s else Alarm 99)"
  by (simp add: state_machine_eq handler_eqs errmesg_eq relays_def)

lemma state_machine_target:
  "targetCaseTemp (state_machine s) =
     (if state s = 5 \<and> cooldown_due s then adapted s else targetCaseTemp s)"
  by (simp add: state_machine_eq handler_eqs errmesg_eq relays_def)

lemma state_machine_request:
  "state_new s = 0 \<Longrightarrow> state_new (state_machine s) \<in> {0, 1, 2, 3, 4, 5}"
  by (simp add: state_machine_eq handler_eqs errmesg_eq relays_def)

lemma change_state_frame:
  "targetCaseTemp (change_state s) = targetCaseTemp s"
  "T (change_state s) = T s"
  "T2 (change_state s) = T2 s"
  "state_new (change_state s) = state_new s"
  "wlog (change_state s) = wlog s"
  "mode (change_state s) = mode s"
  "state (change_state s) = (if state_new s \<noteq> 0 then state_new s else state s)"
  by (simp_all add: change_state_def Let_def)

lemma safeguards_eq:
  "safeguards s =
     (if T s < 3 \<or> T s > 50 then errmesg 1 s
      else if T2 s < 3 \<or> T2 s > 55 then errmesg 2 s else s)"
  by (simp add: safeguards_def T_MIN_def T_MAX_def T2_MIN_def T2_MAX_def)

lemma safeguards_frame:
  "targetCaseTemp (safeguards s) = targetCaseTemp s"
  "state (safeguards s) = state s"
  "state_new (safeguards s) = state_new s"
  by (simp_all add: safeguards_eq errmesg_eq relays_def)

lemma safeguards_mode:
  "mode s = Running \<Longrightarrow>
   mode (safeguards s) = Running \<or> mode (safeguards s) = Alarm 1 \<or> mode (safeguards s) = Alarm 2"
  by (simp add: safeguards_eq errmesg_eq relays_def)

lemma on_tick_frame:
  "targetCaseTemp (on_tick s) = targetCaseTemp s"
  "state (on_tick s) = state s"
  "state_new (on_tick s) = state_new s"
  "wlog (on_tick s) = wlog s"
  "pins (on_tick s) = pins s"
  "mode (on_tick s) = mode s"
  by (simp_all add: on_tick_def show_state_def Let_def)

lemma alarm_cycle_frame:
  "targetCaseTemp (alarm_cycle e s) = targetCaseTemp s"
  "state (alarm_cycle e s) = state s"
  "state_new (alarm_cycle e s) = state_new s"
  "wlog (alarm_cycle e s) = wlog s"
  "pins (alarm_cycle e s) = pins s"
  "mode (alarm_cycle e s) = mode s"
  by (simp_all add: alarm_cycle_def)

lemma settle_frame:
  "targetCaseTemp (fold (\<lambda>i. read_temp (f i) (g i)) xs s) = targetCaseTemp s"
  "state (fold (\<lambda>i. read_temp (f i) (g i)) xs s) = state s"
  "state_new (fold (\<lambda>i. read_temp (f i) (g i)) xs s) = state_new s"
  "wlog (fold (\<lambda>i. read_temp (f i) (g i)) xs s) = wlog s"
  "mode (fold (\<lambda>i. read_temp (f i) (g i)) xs s) = mode s"
  "targetTemp (fold (\<lambda>i. read_temp (f i) (g i)) xs s) = targetTemp s"
  "hysteresis (fold (\<lambda>i. read_temp (f i) (g i)) xs s) = hysteresis s"
  by (induction xs arbitrary: s) (simp_all add: read_temp_frame read_temp_def Let_def)

lemma relay_frame:
  "targetCaseTemp (fan st s) = targetCaseTemp s"
  "targetCaseTemp (solenoid st s) = targetCaseTemp s"
  "state_new (fan st s) = state_new s"
  "state_new (solenoid st s) = state_new s"
  "mode (fan st s) = mode s"
  "mode (solenoid st s) = mode s"
  by (simp_all add: fan_def solenoid_def digitalWrite_def)

lemma loop_init_frame:
  "targetCaseTemp (loop_init f m1 m2 s) = targetCaseTemp s"
  by (simp add: loop_init_def Let_def settle_frame safeguards_frame click_relays_def relay_frame)

lemma loop_init_running:
  assumes "mode (loop_init f m1 m2 s) = Running"
  shows "state (loop_init f m1 m2 s) = 1" and "state_new (loop_init f m1 m2 s) = state_new s"
  using assms
  by (simp_all add: loop_init_def Let_def settle_frame safeguards_frame click_relays_def
        relay_frame split: if_splits)

section \<open>One pass of the duty loop\<close>

lemma loop_body_target:
  "targetCaseTemp (loop_body inp s) =
     (if state s = 5 \<and> state_last s = 5 \<and> seconds (second_counter (millis inp) s) = st5_timer s
      then min ((3 * targetCaseTemp s + T2 (read_temp (temp1 inp) (temp2 inp) s) + 2.0) / 4) 30
      else targetCaseTemp s)"
  by (simp add: loop_body_def Let_def on_tick_frame safeguards_frame change_state_frame
        state_machine_target read_temp_frame second_counter_frame read_temp_T
        cooldown_due_def cooldown_timer_def adapted_def COOLDOWN_TIME_def)


lemma loop_body_states:
  assumes "state s \<in> {1, 2, 3, 4, 5}" and "mode s = Running"
  shows "state (loop_body inp s) \<in> {1, 2, 3, 4, 5}"
    and "state_new (loop_body inp s) \<in> {0, 1, 2, 3, 4, 5}"
    and "mode (loop_body inp s) \<noteq> Alarm 99"
proof -
  define x where
    "x = (read_temp (temp1 inp) (temp2 inp) (second_counter (millis inp) s))\<lparr> state_new := 0 \<rparr>"
  define m where "m = state_machine x"
  define g where "g = safeguards (change_state m)"
  have x: "state x = state s" "mode x = Running" "state_new x = 0"
    using assms by (simp_all add: x_def read_temp_frame second_counter_frame)
  have m: "state m = state s" "mode m = Running" "state_new m \<in> {0, 1, 2, 3, 4, 5}"
    using x assms(1) state_machine_request [of x]
    by (simp_all add: m_def state_machine_frame state_machine_mode)
  have g: "state g \<in> {1, 2, 3, 4, 5}" "state_new g = state_new m" "mode g \<noteq> Alarm 99"
    using m assms(1) safeguards_mode [of "change_state m"]
    by (auto simp add: g_def safeguards_frame change_state_frame)
  have body: "loop_body inp s = (if mode g \<noteq> Running then g else on_tick g)"
    using m by (simp add: loop_body_def Let_def x_def m_def g_def)
  show "state (loop_body inp s) \<in> {1, 2, 3, 4, 5}"
    using g by (simp add: body on_tick_frame)
  show "state_new (loop_body inp s) \<in> {0, 1, 2, 3, 4, 5}"
    using g m by (simp add: body on_tick_frame)
  show "mode (loop_body inp s) \<noteq> Alarm 99"
    using g by (simp add: body on_tick_frame)
qed

lemma errmesg_off:
  "mode (errmesg e s) = Alarm e"
  "pins (errmesg e s) CompressorPin = HIGH"
  "pins (errmesg e s) SolenoidPin = HIGH"
  "pins (errmesg e s) FanPin = HIGH"
  by (simp_all add: errmesg_eq relays_def relay_level_def CompressorPin_def SolenoidPin_def
        FanPin_def)

text \<open>What a pass does when its safety check fails.\<close>

lemma loop_body_halts:
  assumes run: "mode s = Running" and st: "state s \<in> {1, 2, 3, 4, 5}"
    and bad: "T (read_temp (temp1 inp) (temp2 inp) s) < 3 \<or>
              T (read_temp (temp1 inp) (temp2 inp) s) > 50 \<or>
              T2 (read_temp (temp1 inp) (temp2 inp) s) < 3 \<or>
              T2 (read_temp (temp1 inp) (temp2 inp) s) > 55"
  shows "\<exists>c. loop_body inp s =
           errmesg (if T (read_temp (temp1 inp) (temp2 inp) s) < 3 \<or>
                       T (read_temp (temp1 inp) (temp2 inp) s) > 50 then 1 else 2) c"
proof -
  define x where
    "x = (read_temp (temp1 inp) (temp2 inp) (second_counter (millis inp) s))\<lparr> state_new := 0 \<rparr>"
  define c where "c = change_state (state_machine x)"
  have m: "mode (state_machine x) = Running"
    using run st by (simp add: x_def state_machine_mode read_temp_frame second_counter_frame)
  have t: "T c = T (read_temp (temp1 inp) (temp2 inp) s)"
          "T2 c = T2 (read_temp (temp1 inp) (temp2 inp) s)"
    by (simp_all add: c_def x_def change_state_frame state_machine_frame read_temp_T
          second_counter_frame)
  have "loop_body inp s =
          errmesg (if T (read_temp (temp1 inp) (temp2 inp) s) < 3 \<or>
                      T (read_temp (temp1 inp) (temp2 inp) s) > 50 then 1 else 2) c"
    using m bad t
    by (auto simp add: loop_body_def Let_def x_def [symmetric] c_def [symmetric] safeguards_eq
          errmesg_off)
  then show ?thesis ..
qed

lemma alarm_persists:
  "mode s = Alarm e \<Longrightarrow>
   mode (run inps s) = Alarm e \<and> pins (run inps s) = pins s \<and> wlog (run inps s) = wlog s"
proof (induction inps arbitrary: s)
  case Nil
  then show ?case by (simp add: run_def)
next
  case (Cons r rs)
  have "step r s = alarm_cycle e s"
    using Cons.prems by (simp add: step_def)
  moreover have "run (r # rs) s = run rs (step r s)"
    by (simp add: run_def)
  ultimately show ?case
    using Cons.IH [of "alarm_cycle e s"] Cons.prems by (simp add: alarm_cycle_frame)
qed

lemmas pass_eval = step_def loop_body_def Let_def second_counter_def read_temp_def
  state_machine_eq handler_eqs relays_def relay_level_def change_state_def safeguards_eq
  errmesg_eq on_tick_def show_state_def SECOND_def HOLD_TIME_def COOLDOWN_TIME_def
  start_timer_def cool_start_def hold_timer_def hold_a_def hold_b_def hold_c_def
  cooldown_timer_def cooldown_due_def adapted_def power_on_def

section \<open>The safety monitor\<close>

text \<open>
  C1. On a pass of the duty loop whose safety check sees the filtered water temperature
  outside [3, 50] or the filtered case temperature outside [3, 55], the device ends in
  the alarm loop of \<open>errmesg\<close> (error 1 or 2) with the compressor, solenoid and fan
  relays off (\<open>HIGH\<close>), and whatever is read afterwards it stays in that alarm with the
  pins as they are.
\<close>

theorem safety_check_halts:
  assumes "mode s = Running" and "state s \<in> {1, 2, 3, 4, 5}"
    and "T (read_temp (temp1 inp) (temp2 inp) s) < 3 \<or>
         T (read_temp (temp1 inp) (temp2 inp) s) > 50 \<or>
         T2 (read_temp (temp1 inp) (temp2 inp) s) < 3 \<or>
         T2 (read_temp (temp1 inp) (temp2 inp) s) > 55"
  shows "(mode (step inp s) = Alarm 1 \<or> mode (step inp s) = Alarm 2) \<and>
         pins (step inp s) CompressorPin = HIGH \<and>
         pins (step inp s) SolenoidPin = HIGH \<and>
         pins (step inp s) FanPin = HIGH \<and>
         (\<forall>inps. mode (run inps (step inp s)) = mode (step inp s) \<and>
                 pins (run inps (step inp s)) = pins (step inp s))"
proof -
  from loop_body_halts [OF assms] obtain c e where
    halt: "loop_body inp s = errmesg e c" and e: "e = 1 \<or> e = 2"
    by (metis (full_types))
  have st: "step inp s = errmesg e c"
    using assms(1) halt by (simp add: step_def)
  have m: "mode (step inp s) = Alarm e"
    by (simp add: st errmesg_off)
  from alarm_persists [OF m] m e show ?thesis
    by (auto simp add: st errmesg_off)
qed

theorem safety_check_halts_witness:
  "T (read_temp (temp1 reading_70) (temp2 reading_70) idle_at_50) = 50.1 \<and>
   mode (step reading_70 idle_at_50) = Alarm 1 \<and>
   pins (step reading_70 idle_at_50) CompressorPin = HIGH \<and>
   pins (step reading_70 idle_at_50) SolenoidPin = HIGH \<and>
   pins (step reading_70 idle_at_50) FanPin = HIGH \<and>
   T (read_temp (temp1 reading_minus_17) (temp2 reading_minus_17) idle_at_3) = 2.9 \<and>
   mode (step reading_minus_17 idle_at_3) = Alarm 1 \<and>
   pins (step reading_minus_17 idle_at_3) CompressorPin = HIGH \<and>
   pins (step reading_minus_17 idle_at_3) SolenoidPin = HIGH \<and>
   pins (step reading_minus_17 idle_at_3) FanPin = HIGH"
proof -
  have hot: "T (read_temp (temp1 reading_70) (temp2 reading_70) idle_at_50) = 50.1"
    by (simp add: read_temp_T reading_70_def idle_at_50_def power_on_def)
  have cold: "T (read_temp (temp1 reading_minus_17) (temp2 reading_minus_17) idle_at_3) = 2.9"
    by (simp add: read_temp_T reading_minus_17_def idle_at_3_def power_on_def)
  have s50: "mode idle_at_50 = Running" "state idle_at_50 \<in> {1, 2, 3, 4, 5}"
    by (simp_all add: idle_at_50_def power_on_def)
  have s3: "mode idle_at_3 = Running" "state idle_at_3 \<in> {1, 2, 3, 4, 5}"
    by (simp_all add: idle_at_3_def power_on_def)
  have m50: "mode (step reading_70 idle_at_50) = Alarm 1"
    by (simp add: pass_eval reading_70_def idle_at_50_def)
  have m3: "mode (step reading_minus_17 idle_at_3) = Alarm 1"
    by (simp add: pass_eval reading_minus_17_def idle_at_3_def)
  have a: "pins (step reading_70 idle_at_50) CompressorPin = HIGH \<and>
           pins (step reading_70 idle_at_50) SolenoidPin = HIGH \<and>
           pins (step reading_70 idle_at_50) FanPin = HIGH"
    using safety_check_halts [of idle_at_50 reading_70] s50 hot by simp
  have b: "pins (step reading_minus_17 idle_at_3) CompressorPin = HIGH \<and>
           pins (step reading_minus_17 idle_at_3) SolenoidPin = HIGH \<and>
           pins (step reading_minus_17 idle_at_3) FanPin = HIGH"
    using safety_check_halts [of idle_at_3 reading_minus_17] s3 cold by simp
  from hot cold m50 m3 a b show ?thesis by simp
qed

section \<open>The adaptive case target\<close>




lemma step_target:
  "targetCaseTemp s \<le> 30 \<Longrightarrow> targetCaseTemp (step inp s) \<le> 30"
  by (cases "mode s") (simp_all add: step_def loop_body_target alarm_cycle_frame)

text \<open>
  C7. In every configuration the device can reach from power-on, whatever the sensors
  read and whatever the clock shows, \<open>targetCaseTemp\<close> is at most \<open>CASE_TEMP_ROOF\<close>
  (30): the initial 22.0 is, and the adaptive update is the only assignment.
\<close>

theorem case_target_never_above_roof:
  "reachable s \<Longrightarrow> targetCaseTemp s \<le> CASE_TEMP_ROOF"
proof (induction rule: reachable.induct)
  case cold
  show ?case by (simp add: power_on_def CASE_TEMP_ROOF_def)
next
  case booted
  show ?case by (simp add: arduino_setup_def digitalWrite_def power_on_def CASE_TEMP_ROOF_def)
next
  case (started samples m1 m2)
  show ?case
    by (simp add: loop_init_frame arduino_setup_def digitalWrite_def power_on_def
          CASE_TEMP_ROOF_def)
next
  case (stepped s inp)
  then show ?case by (simp add: step_target CASE_TEMP_ROOF_def)
qed

theorem case_target_never_above_roof_witness:
  "reachable (step reading_20_25 booted_20) \<and>
   targetCaseTemp (step reading_20_25 booted_20) \<le> CASE_TEMP_ROOF"
proof -
  have "reachable booted_20"
    unfolding booted_20_def by (rule reachable.started)
  then have r: "reachable (step reading_20_25 booted_20)"
    by (rule reachable.stepped)
  from case_target_never_above_roof [OF r] r show ?thesis by simp
qed

section \<open>The reachable control states\<close>

lemma settle_seeded:
  "Tlast s = a \<and> T s = a \<and> T2last s = b \<and> T2 s = b \<Longrightarrow>
   T (fold (\<lambda>i. read_temp a b) xs s) = a \<and> T2 (fold (\<lambda>i. read_temp a b) xs s) = b \<and>
   Tlast (fold (\<lambda>i. read_temp a b) xs s) = a \<and> T2last (fold (\<lambda>i. read_temp a b) xs s) = b"
  by (induction xs arbitrary: s) (simp_all add: read_temp_T)

lemma settle_const:
  assumes "Tlast s = 0" and "T2last s = 0"
  shows "T (fold (\<lambda>i. read_temp a b) (x # xs) s) = a"
    and "T2 (fold (\<lambda>i. read_temp a b) (x # xs) s) = b"
    and "Tlast (fold (\<lambda>i. read_temp a b) (x # xs) s) = a"
    and "T2last (fold (\<lambda>i. read_temp a b) (x # xs) s) = b"
  using assms settle_seeded [of "read_temp a b s" a b xs]
  by (simp_all add: read_temp_T)

text \<open>A start with constant readings inside the bounds enters the duty loop.\<close>

lemma boot_const:
  assumes "3 \<le> a" "a \<le> 50" "3 \<le> b" "b \<le> 55"
  shows "mode (loop_init (\<lambda>_. (a, b)) m1 m2 (arduino_setup power_on)) = Running"
    and "state (loop_init (\<lambda>_. (a, b)) m1 m2 (arduino_setup power_on)) = 1"
    and "Tlast (loop_init (\<lambda>_. (a, b)) m1 m2 (arduino_setup power_on)) = a"
    and "T2last (loop_init (\<lambda>_. (a, b)) m1 m2 (arduino_setup power_on)) = b"
    and "targetTemp (loop_init (\<lambda>_. (a, b)) m1 m2 (arduino_setup power_on)) = 16"
    and "hysteresis (loop_init (\<lambda>_. (a, b)) m1 m2 (arduino_setup power_on)) = 0.8"
    and "targetCaseTemp (loop_init (\<lambda>_. (a, b)) m1 m2 (arduino_setup power_on)) = 22"
    and "nextSecondTick (loop_init (\<lambda>_. (a, b)) m1 m2 (arduino_setup power_on)) = m2 + 1000"
proof -
  define s0 where "s0 = (arduino_setup power_on)\<lparr> display := SEG_INIT \<rparr>"
  define s1 where "s1 = fold (\<lambda>i. read_temp a b) [0..<200] s0"
  have z: "Tlast s0 = 0" "T2last s0 = 0" "mode s0 = Running" "targetTemp s0 = 16"
    "hysteresis s0 = 0.8" "targetCaseTemp s0 = 22"
    by (simp_all add: s0_def arduino_setup_def digitalWrite_def power_on_def)
  have u: "[0..<200] = 0 # [1..<200]"
    by (simp add: upt_conv_Cons)
  have t: "T s1 = a" "T2 s1 = b" "Tlast s1 = a" "T2last s1 = b"
    unfolding s1_def u using z settle_const [of s0 a b 0 "[1..<200]"] by simp_all
  have m: "mode s1 = Running" "targetTemp s1 = 16" "hysteresis s1 = 0.8"
    "targetCaseTemp s1 = 22"
    using z settle_frame [of "\<lambda>_. a" "\<lambda>_. b" "[0..<200]" s0] by (simp_all add: s1_def)
  have g: "safeguards s1 = s1"
    using t assms by (simp add: safeguards_eq)
  have eq: "loop_init (\<lambda>_. (a, b)) m1 m2 (arduino_setup power_on) =
              (click_relays s1)\<lparr> state := 1, lastTick := m1, nextSecondTick := m2 + SECOND \<rparr>"
    using g m by (simp add: loop_init_def Let_def s0_def [symmetric] s1_def [symmetric])
  show "mode (loop_init (\<lambda>_. (a, b)) m1 m2 (arduino_setup power_on)) = Running"
    and "state (loop_init (\<lambda>_. (a, b)) m1 m2 (arduino_setup power_on)) = 1"
    and "Tlast (loop_init (\<lambda>_. (a, b)) m1 m2 (arduino_setup power_on)) = a"
    and "T2last (loop_init (\<lambda>_. (a, b)) m1 m2 (arduino_setup power_on)) = b"
    and "targetTemp (loop_init (\<lambda>_. (a, b)) m1 m2 (arduino_setup power_on)) = 16"
    and "hysteresis (loop_init (\<lambda>_. (a, b)) m1 m2 (arduino_setup power_on)) = 0.8"
    and "targetCaseTemp (loop_init (\<lambda>_. (a, b)) m1 m2 (arduino_setup power_on)) = 22"
    and "nextSecondTick (loop_init (\<lambda>_. (a, b)) m1 m2 (arduino_setup power_on)) = m2 + 1000"
    unfolding eq using m t
    by (simp_all add: click_relays_def fan_def solenoid_def digitalWrite_def SECOND_def)
qed

lemma booted_20_running: "mode booted_20 = Running"
  unfolding booted_20_def by (rule boot_const) simp_all

text \<open>
  C10. From the moment the duty loop begins, \<open>state\<close> is one of 1 to 5, the request
  \<open>state_new\<close> left by a pass is 0 (no change) or one of 1 to 5, and the device is
  never in the alarm of error 99, the branch for an unknown state.
\<close>

theorem duty_loop_state_known:
  "in_duty_loop s \<Longrightarrow>
   state s \<in> {1, 2, 3, 4, 5} \<and> state_new s \<in> {0, 1, 2, 3, 4, 5} \<and> mode s \<noteq> Alarm 99"
proof (induction rule: in_duty_loop.induct)
  case (entered samples m1 m2)
  have "state_new (arduino_setup power_on) = 0"
    by (simp add: arduino_setup_def digitalWrite_def power_on_def)
  with entered loop_init_running [OF entered] show ?case by simp
next
  case (passed s inp)
  show ?case
  proof (cases "mode s")
    case Running
    with passed.IH loop_body_states [of s inp] show ?thesis
      by (simp add: step_def)
  next
    case (Alarm e)
    with passed.IH show ?thesis
      by (simp add: step_def alarm_cycle_frame)
  qed
qed

theorem duty_loop_state_known_witness:
  "in_duty_loop (step reading_20_25 booted_20) \<and>
   state (step reading_20_25 booted_20) \<in> {1, 2, 3, 4, 5} \<and>
   state_new (step reading_20_25 booted_20) \<in> {0, 1, 2, 3, 4, 5} \<and>
   mode (step reading_20_25 booted_20) \<noteq> Alarm 99"
proof -
  have "in_duty_loop booted_20"
    using booted_20_running unfolding booted_20_def by (rule in_duty_loop.entered)
  then have d: "in_duty_loop (step reading_20_25 booted_20)"
    by (rule in_duty_loop.passed)
  from duty_loop_state_known [OF d] d show ?thesis by simp
qed

section \<open>The pump relay\<close>

lemma pump_writes_upd:
  "pump_writes (s\<lparr> display := d \<rparr>) = pump_writes s"
  "pump_writes (s\<lparr> state_new := n \<rparr>) = pump_writes s"
  "pump_writes (s\<lparr> mode := md \<rparr>) = pump_writes s"
  "pump_writes (s\<lparr> state := a, lastTick := b, nextSecondTick := c \<rparr>) = pump_writes s"
  by (simp_all add: pump_writes_def)

lemma pump_writes_relay:
  "pump_writes (fan st s) = pump_writes s"
  "pump_writes (compressor st s) = pump_writes s"
  "pump_writes (solenoid st s) = pump_writes s"
  by (simp_all add: pump_writes_def fan_def compressor_def solenoid_def digitalWrite_def
        PumpPin_def FanPin_def CompressorPin_def SolenoidPin_def)

lemma pump_writes_errmesg: "pump_writes (errmesg e s) = pump_writes s"
  by (simp add: errmesg_def pump_writes_upd pump_writes_relay)

lemma pump_writes_stage:
  "pump_writes (second_counter now s) = pump_writes s"
  "pump_writes (read_temp a b s) = pump_writes s"
  "pump_writes (change_state s) = pump_writes s"
  "pump_writes (on_tick s) = pump_writes s"
  "pump_writes (alarm_cycle e s) = pump_writes s"
  "pump_writes (fold (\<lambda>i. read_temp (f i) (g i)) xs s) = pump_writes s"
  by (simp_all add: pump_writes_def second_counter_frame read_temp_frame change_state_frame
        on_tick_frame alarm_cycle_frame settle_frame)

lemma pump_writes_state_machine: "pump_writes (state_machine s) = pump_writes s"
  by (simp add: pump_writes_def state_machine_eq handler_eqs errmesg_eq relays_def
        PumpPin_def FanPin_def CompressorPin_def SolenoidPin_def)

lemma pump_writes_safeguards: "pump_writes (safeguards s) = pump_writes s"
  by (simp add: safeguards_eq pump_writes_errmesg)

lemma pump_writes_step: "pump_writes (step inp s) = pump_writes s"
  by (cases "mode s")
     (simp_all add: step_def loop_body_def Let_def pump_writes_stage pump_writes_upd
        pump_writes_state_machine pump_writes_safeguards)

text \<open>
  C9 (as amended). The control core drives three actuators: compressor, bypass solenoid
  and fan. The pump pin is written once, \<open>HIGH\<close>, when the pins are set up; neither the
  start-up part of the loop function, nor a pass of the duty loop, nor the alarm writes
  it again.
\<close>

theorem pump_written_at_setup_only:
  "pump_writes (arduino_setup power_on) = [(PumpPin, HIGH)] \<and>
   pump_writes (loop_init samples m1 m2 s) = pump_writes s \<and>
   pump_writes (step inp s) = pump_writes s \<and>
   pump_writes (run inps s) = pump_writes s"
proof -
  have a: "pump_writes (arduino_setup power_on) = [(PumpPin, HIGH)]"
    by (simp add: pump_writes_def arduino_setup_def digitalWrite_def power_on_def
          PumpPin_def FanPin_def CompressorPin_def SolenoidPin_def)
  have b: "pump_writes (loop_init samples m1 m2 s) = pump_writes s"
    by (simp add: loop_init_def Let_def click_relays_def pump_writes_upd pump_writes_relay
          pump_writes_safeguards pump_writes_stage)
  have c: "pump_writes (run inps s) = pump_writes s"
    unfolding run_def by (induction inps arbitrary: s) (simp_all add: pump_writes_step)
  from a b c show ?thesis by (simp add: pump_writes_step)
qed

theorem pump_written_in_duty_loop_counterexample:
  "wlog idle_both = [] \<and>
   wlog (run [reading_20_25, reading_20_25] idle_both) =
     [(FanPin, HIGH), (CompressorPin, HIGH), (SolenoidPin, HIGH),
      (FanPin, HIGH), (CompressorPin, LOW), (SolenoidPin, LOW)] \<and>
   PumpPin \<notin> fst ` set (wlog (run [reading_20_25, reading_20_25] idle_both))"
  by (simp add: run_def pass_eval idle_both_def reading_20_25_def
        PumpPin_def FanPin_def CompressorPin_def SolenoidPin_def)

section \<open>The second counter\<close>

text \<open>
  A pass that reads the millisecond after the boundary ticks and moves the boundary on
  by 1000, as long as the boundary is not below 1001 and not the last value of the clock.
\<close>

lemma steady_pass:
  assumes st: "steady s" and gt: "nextSecondTick s < now" and ge: "\<not> nextSecondTick s < 1001"
  shows "steady (step \<lparr> millis = now, temp1 = 16, temp2 = 20 \<rparr> s)"
    and "nextSecondTick (step \<lparr> millis = now, temp1 = 16, temp2 = 20 \<rparr> s) =
           nextSecondTick s + 1000"
proof -
  define rd where "rd = \<lparr> millis = now, temp1 = 16, temp2 = 20 \<rparr>"
  have rd: "millis rd = now" "temp1 rd = 16" "temp2 rd = 20"
    by (simp_all add: rd_def)
  define c where "c = second_counter (millis rd) s"
  define x where "x = (read_temp (temp1 rd) (temp2 rd) c)\<lparr> state_new := 0 \<rparr>"
  define m where "m = change_state (state_machine x)"
  have body: "loop_body rd s =
      (if mode (state_machine x) \<noteq> Running then state_machine x
       else if mode (safeguards m) \<noteq> Running then safeguards m
       else on_tick (safeguards m))"
    unfolding loop_body_def Let_def c_def x_def m_def by (rule refl)
  have c: "nextSecondTick c = nextSecondTick s + 1000" "mode c = Running" "state c = 1"
    "Tlast c = 16" "T2last c = 20" "targetTemp c = 16" "hysteresis c = 0.8"
    "targetCaseTemp c = 22"
    using st gt ge
    by (simp_all add: c_def rd second_counter_def Let_def steady_def SECOND_def)
  have x: "nextSecondTick x = nextSecondTick s + 1000" "mode x = Running" "state x = 1"
    "Tlast x = 16" "T2last x = 20" "targetTemp x = 16" "hysteresis x = 0.8"
    "targetCaseTemp x = 22" "T x = 16" "T2 x = 20" "state_new x = 0"
    using c by (simp_all add: x_def rd read_temp_def Let_def)
  have m: "nextSecondTick m = nextSecondTick s + 1000" "mode m = Running" "state m = 1"
    "Tlast m = 16" "T2last m = 20" "targetTemp m = 16" "hysteresis m = 0.8"
    "targetCaseTemp m = 22" "T m = 16" "T2 m = 20"
    using x
    by (simp_all add: m_def state_machine_eq do_state_1_eq relays_def change_state_def Let_def)
  have g: "safeguards m = m"
    using m by (simp add: safeguards_eq)
  have "mode (state_machine x) = Running"
    using x by (simp add: state_machine_mode)
  with g m(2) have "loop_body rd s = on_tick m"
    by (simp add: body)
  then have "step rd s = on_tick m"
    using st by (simp add: step_def steady_def)
  moreover have "steady (on_tick m)" "nextSecondTick (on_tick m) = nextSecondTick s + 1000"
    using m by (simp_all add: steady_def on_tick_def show_state_def Let_def)
  ultimately show "steady (step \<lparr> millis = now, temp1 = 16, temp2 = 20 \<rparr> s)"
    and "nextSecondTick (step \<lparr> millis = now, temp1 = 16, temp2 = 20 \<rparr> s) =
           nextSecondTick s + 1000"
    unfolding rd_def by simp_all
qed

lemma steady_boundaries:
  "16290 + 1000 * k + 1 < (2::nat) ^ 32 \<Longrightarrow>
   \<exists>s. reachable s \<and> steady s \<and> nextSecondTick s = of_nat (16290 + 1000 * k)"
proof (induction k)
  case 0
  have "reachable (loop_init (\<lambda>_. (16, 20)) 15290 15290 (arduino_setup power_on))"
    by (rule reachable.started)
  moreover have "steady (loop_init (\<lambda>_. (16, 20)) 15290 15290 (arduino_setup power_on))"
    unfolding steady_def by (simp add: boot_const)
  moreover have
    "nextSecondTick (loop_init (\<lambda>_. (16, 20)) 15290 15290 (arduino_setup power_on)) =
       of_nat (16290 + 1000 * 0)"
    by (simp add: boot_const)
  ultimately show ?case by blast
next
  case (Suc k)
  then obtain s where s: "reachable s" "steady s"
      "nextSecondTick s = of_nat (16290 + 1000 * k)"
    by auto
  define n where "n = 16290 + 1000 * k"
  have hi: "n + 1 < 2 ^ 32" and lo: "1001 \<le> n"
    using Suc.prems by (simp_all add: n_def)
  have un: "unat (of_nat n :: ulong) = n" "unat (of_nat (n + 1) :: ulong) = n + 1"
    using hi by (simp_all add: unat_of_nat del: of_nat_add of_nat_Suc)
  have gt: "nextSecondTick s < of_nat (n + 1)"
    unfolding s(3) n_def [symmetric] word_less_nat_alt un by simp
  have ge: "\<not> nextSecondTick s < 1001"
    unfolding s(3) n_def [symmetric] word_less_nat_alt un(1) using lo by simp
  let ?r = "\<lparr> millis = of_nat (n + 1), temp1 = 16, temp2 = 20 \<rparr>"
  have "reachable (step ?r s)"
    using s(1) by (rule reachable.stepped)
  moreover have "steady (step ?r s)"
    by (rule steady_pass(1) [OF s(2) gt ge])
  moreover have "nextSecondTick (step ?r s) = of_nat (16290 + 1000 * Suc k)"
    using steady_pass(2) [OF s(2) gt ge] by (simp add: s(3) add.assoc)
  ultimately show ?case by blast
qed

lemma wrap_boundary_reachable:
  "\<exists>s. reachable s \<and> mode s = Running \<and> nextSecondTick s = 4294967290"
proof -
  from steady_boundaries [of 4294951] obtain s where
    "reachable s" "steady s" "nextSecondTick s = of_nat (16290 + 1000 * 4294951)"
    by auto
  then show ?thesis by (auto simp add: steady_def)
qed

text \<open>
  C2 does not hold of the code. The second counter ticks only on a pass that reads
  \<open>thisTick > nextSecondTick\<close>, and not at all while \<open>nextSecondTick < 1001\<close>
  and \<open>thisTick > 1001\<close>. Around the wrap of the 32-bit millisecond clock both
  tests lose seconds.
  \<^item> When the next boundary lies just below 2^32 and no pass falls between the boundary
    and the wrap, the clock restarts from 0 below the boundary and the comparison stays
    false until the clock has gone round once more. In \<open>near_wrap\<close> the boundary is
    4294967290. The passes come every 50 ms, at 4294967240, at 4294967290, and after the
    wrap at 44 and 94; later passes are at 1044, 2044, 3044 and 10044. No pass ticks
    and \<open>seconds\<close> stays at 7, although more than 10 s go by. Only a pass that reads
    one of the five values above the boundary would tick. A boundary of 4294967290 is
    reached from power-on: by a duty loop that starts at 15290 ms and ticks once a second.
  \<^item> When the boundary after the wrap lies just below 1001 and no pass falls between the
    boundary and 1001, the roll-over test holds on every later pass. In \<open>after_wrap\<close>
    the boundary is 980 and the last pass was at 4294967286. The passes come every 51 ms,
    at 908, 959, 1010 and 1061; later passes are at 2030, 3050 and 10190. Again no pass
    ticks: only a pass that reads a value from 981 to 1001 would.
\<close>

theorem second_counter_stalls_at_wrap:
  "tick_trace (map at_ms [4294967240, 4294967290, 44, 94, 1044, 2044, 3044, 10044]) near_wrap =
     [(False, 7), (False, 7), (False, 7), (False, 7),
      (False, 7), (False, 7), (False, 7), (False, 7)] \<and>
   (\<exists>s. reachable s \<and> mode s = Running \<and> nextSecondTick s = nextSecondTick near_wrap \<and>
        (\<forall>now. tick (second_counter now s) = (4294967290 < now))) \<and>
   tick_trace (map at_ms [908, 959, 1010, 1061, 2030, 3050, 10190]) after_wrap =
     [(False, 7), (False, 7), (False, 7), (False, 7),
      (False, 7), (False, 7), (False, 7)] \<and>
   (\<forall>now. tick (second_counter now after_wrap) = (980 < now \<and> now \<le> 1001))"
proof -
  have "tick_trace (map at_ms [4294967240, 4294967290, 44, 94, 1044, 2044, 3044, 10044])
          near_wrap =
        [(False, 7), (False, 7), (False, 7), (False, 7),
         (False, 7), (False, 7), (False, 7), (False, 7)]"
    by (simp add: pass_eval near_wrap_def at_ms_def)
  moreover have "\<exists>s. reachable s \<and> mode s = Running \<and>
                    nextSecondTick s = nextSecondTick near_wrap \<and>
                    (\<forall>now. tick (second_counter now s) = (4294967290 < now))"
  proof -
    from wrap_boundary_reachable obtain s where
      s: "reachable s" "mode s = Running" "nextSecondTick s = 4294967290"
      by blast
    have "tick (second_counter now s) = (4294967290 < now)" for now
      using s(3) by (simp add: second_counter_def Let_def)
    moreover have "nextSecondTick near_wrap = 4294967290"
      by (simp add: near_wrap_def)
    ultimately show ?thesis
      using s by auto
  qed
  moreover have "tick_trace (map at_ms [908, 959, 1010, 1061, 2030, 3050, 10190]) after_wrap =
        [(False, 7), (False, 7), (False, 7), (False, 7),
         (False, 7), (False, 7), (False, 7)]"
    by (simp add: pass_eval after_wrap_def at_ms_def)
  moreover have "tick (second_counter now after_wrap) = (980 < now \<and> now \<le> 1001)" for now
    by (auto simp add: second_counter_def Let_def after_wrap_def power_on_def not_less)
  ultimately show ?thesis by simp
qed

end
